theory Spec2Isabelle
  imports Complex_Main "HOL-Library.AList"
begin

section \<open>Floating-point values as pandas and Python see them\<close>

text \<open>
  The indicator engine of \<^verbatim>\<open>utils.py\<close> computes on IEEE doubles through pandas.
  A double is modelled by its special values and, when finite, by the real number it
  denotes. Rounding, overflow of finite results and the sign of zero are not modelled:
  a finite result is the exact real result. Division by a zero divisor follows IEEE 754:
  \<open>0/0\<close> is NaN and \<open>x/0\<close> for \<open>x \<noteq> 0\<close> is an infinity.
\<close>

datatype float64 = NaN | PosInf | NegInf | Finite real

fun fneg :: "float64 \<Rightarrow> float64" where
  "fneg NaN = NaN"
| "fneg PosInf = NegInf"
| "fneg NegInf = PosInf"
| "fneg (Finite a) = Finite (- a)"

fun fadd :: "float64 \<Rightarrow> float64 \<Rightarrow> float64" where
  "fadd NaN _ = NaN"
| "fadd _ NaN = NaN"
| "fadd (Finite a) (Finite b) = Finite (a + b)"
| "fadd PosInf NegInf = NaN"
| "fadd NegInf PosInf = NaN"
| "fadd PosInf _ = PosInf"
| "fadd NegInf _ = NegInf"
| "fadd (Finite a) y = y"

definition fsub :: "float64 \<Rightarrow> float64 \<Rightarrow> float64" where
  "fsub x y = fadd x (fneg y)"

fun fmul :: "float64 \<Rightarrow> float64 \<Rightarrow> float64" where
  "fmul NaN _ = NaN"
| "fmul _ NaN = NaN"
| "fmul (Finite a) (Finite b) = Finite (a * b)"
| "fmul (Finite a) y = (if a = 0 then NaN else if 0 < a then y else fneg y)"
| "fmul x (Finite b) = (if b = 0 then NaN else if 0 < b then x else fneg x)"
| "fmul PosInf y = y"
| "fmul NegInf y = fneg y"

fun fdiv :: "float64 \<Rightarrow> float64 \<Rightarrow> float64" where
  "fdiv NaN _ = NaN"
| "fdiv _ NaN = NaN"
| "fdiv (Finite a) (Finite b) =
     (if b = 0 then (if a = 0 then NaN else if 0 < a then PosInf else NegInf)
      else Finite (a / b))"
| "fdiv (Finite a) y = Finite 0"
| "fdiv x (Finite b) = (if 0 \<le> b then x else fneg x)"
| "fdiv x y = NaN"

text \<open>Comparisons with NaN are false.\<close>

fun flt :: "float64 \<Rightarrow> float64 \<Rightarrow> bool" where
  "flt NaN _ = False"
| "flt _ NaN = False"
| "flt (Finite a) (Finite b) = (a < b)"
| "flt PosInf _ = False"
| "flt _ NegInf = False"
| "flt _ _ = True"

definition fgt :: "float64 \<Rightarrow> float64 \<Rightarrow> bool" where
  "fgt x y = flt y x"

definition fge :: "float64 \<Rightarrow> float64 \<Rightarrow> bool" where
  "fge x y = (case (x, y) of
      (NaN, _) \<Rightarrow> False | (_, NaN) \<Rightarrow> False | _ \<Rightarrow> \<not> flt x y)"

section \<open>Series and the pandas operations the indicators use\<close>

text \<open>
  A pandas Series is the list of its values; every Series of one table shares the
  table's index, so arithmetic between two of them is positionwise.
\<close>

type_synonym series = "float64 list"

text \<open>\<^verbatim>\<open>s.diff()\<close>: the first position is NaN, position \<open>i\<close> is \<open>s[i] - s[i-1]\<close>.\<close>

fun diff :: "series \<Rightarrow> series" where
  "diff [] = []"
| "diff (x # xs) = NaN # map2 (\<lambda>prev cur. fsub cur prev) (x # xs) xs"

text \<open>\<^verbatim>\<open>s.where(cond, other)\<close> keeps a value where the condition holds.\<close>

definition where_series :: "(float64 \<Rightarrow> bool) \<Rightarrow> float64 \<Rightarrow> series \<Rightarrow> series" where
  "where_series cond other s = map (\<lambda>v. if cond v then v else other) s"

text \<open>
  Window functions first replace infinities by NaN. \<^verbatim>\<open>rolling(window=w)\<close> has
  \<^verbatim>\<open>min_periods = w\<close>: position \<open>i\<close> is defined when the \<open>w\<close> values ending at \<open>i\<close>
  exist and none is NaN.
\<close>

definition prep_value :: "float64 \<Rightarrow> real option" where
  "prep_value v = (case v of Finite a \<Rightarrow> Some a | _ \<Rightarrow> None)"

definition rolling :: "nat \<Rightarrow> (real list \<Rightarrow> float64) \<Rightarrow> series \<Rightarrow> series" where
  "rolling w agg s =
     map (\<lambda>i. if i + 1 < w then NaN
              else (case those (map prep_value (take w (drop (i + 1 - w) s))) of
                      None \<Rightarrow> NaN
                    | Some win \<Rightarrow> agg win))
         [0..<length s]"

definition mean :: "real list \<Rightarrow> float64" where
  "mean win = (if win = [] then NaN else Finite (sum_list win / real (length win)))"

text \<open>\<^verbatim>\<open>std()\<close> is the sample standard deviation (one degree of freedom removed).\<close>

definition std :: "real list \<Rightarrow> float64" where
  "std win =
     (if length win \<le> 1 then NaN
      else (let m = sum_list win / real (length win)
            in Finite (sqrt (sum_list (map (\<lambda>x. (x - m)\<^sup>2) win) / real (length win - 1)))))"

section \<open>The indicator engine\<close>

text \<open>
  \<^verbatim>\<open>calculate_rsi(prices, period=14)\<close>. The intermediate Series \<open>gain\<close> and \<open>loss\<close> of
  the source are functions of their own, so that statements can refer to them.
\<close>

definition rsi_gain :: "series \<Rightarrow> nat \<Rightarrow> series" where
  "rsi_gain prices period =
     (let delta = diff prices
      in rolling period mean (where_series (\<lambda>d. fgt d (Finite 0)) (Finite 0) delta))"

definition rsi_loss :: "series \<Rightarrow> nat \<Rightarrow> series" where
  "rsi_loss prices period =
     (let delta = diff prices
      in rolling period mean (map fneg (where_series (\<lambda>d. flt d (Finite 0)) (Finite 0) delta)))"

definition calculate_rsi :: "series \<Rightarrow> nat \<Rightarrow> series" where
  "calculate_rsi prices period =
     (let gain = rsi_gain prices period;
          loss = rsi_loss prices period;
          rs = map2 fdiv gain loss
      in map (\<lambda>r. fsub (Finite 100) (fdiv (Finite 100) (fadd (Finite 1) r))) rs)"

text \<open>
  \<^verbatim>\<open>s.ewm(span=n, adjust=False).mean()\<close>, with the defaults \<^verbatim>\<open>ignore_na=False\<close>
  and \<^verbatim>\<open>min_periods=0\<close>. The state of the loop is the running average (\<open>None\<close>
  while no observation has been seen) and the weight of the old average, which decays
  by \<open>1 - alpha\<close> at every position and is reset to 1 at every observation. On a
  Series without NaN this is \<open>y\<^sub>0 = x\<^sub>0\<close>, \<open>y\<^sub>t = (1 - alpha) y\<^sub>t\<^sub>-\<^sub>1 + alpha x\<^sub>t\<close>.
\<close>

fun ewm_step :: "real \<Rightarrow> real option \<times> real \<Rightarrow> real option \<Rightarrow> real option \<times> real" where
  "ewm_step alpha (None, old_wt) cur = (cur, old_wt)"
| "ewm_step alpha (Some w, old_wt) None = (Some w, old_wt * (1 - alpha))"
| "ewm_step alpha (Some w, old_wt) (Some c) =
     (let ow = old_wt * (1 - alpha)
      in (Some (if w \<noteq> c then (ow * w + alpha * c) / (ow + alpha) else w), 1))"

fun ewm_from :: "real \<Rightarrow> real option \<times> real \<Rightarrow> real option list \<Rightarrow> real option list" where
  "ewm_from alpha st [] = []"
| "ewm_from alpha st (cur # rest) =
     (let st' = ewm_step alpha st cur in fst st' # ewm_from alpha st' rest)"

definition unprep_value :: "real option \<Rightarrow> float64" where
  "unprep_value v = (case v of None \<Rightarrow> NaN | Some a \<Rightarrow> Finite a)"

definition ewm_mean :: "nat \<Rightarrow> series \<Rightarrow> series" where
  "ewm_mean sp s =
     (let alpha = 2 / (real sp + 1)
      in (case map prep_value s of
            [] \<Rightarrow> []
          | v # vs \<Rightarrow> map unprep_value (v # ewm_from alpha (v, 1) vs)))"

text \<open>
  The exponential moving average as the specification words it: seeded with the first
  value, then smoothed with \<open>alpha = 2 / (span + 1)\<close>. It is compared with
  \<open>ewm_mean\<close> below.
\<close>

fun ema_from :: "real \<Rightarrow> real \<Rightarrow> real list \<Rightarrow> real list" where
  "ema_from alpha y [] = []"
| "ema_from alpha y (x # xs) =
     (let y' = (1 - alpha) * y + alpha * x in y' # ema_from alpha y' xs)"

fun ema :: "nat \<Rightarrow> real list \<Rightarrow> real list" where
  "ema sp [] = []"
| "ema sp (x # xs) = x # ema_from (2 / (real sp + 1)) x xs"

section \<open>Tables, references and exceptions\<close>

text \<open>
  A DataFrame is the ordered list of its named columns (the row index is shared by all
  columns and is not modelled). A Python variable holds a reference to a table; the
  heap maps references to tables, so that assignment into a column is visible through
  every reference to the same table.
\<close>

datatype py_error = KeyError string | TypeError | ValueError | OverflowError

type_synonym dataframe = "(string \<times> series) list"
type_synonym ref = nat
type_synonym heap = "ref \<Rightarrow> dataframe"
type_synonym 'a prog = "heap \<Rightarrow> (py_error + 'a) \<times> heap"

definition return_st :: "'a \<Rightarrow> 'a prog" where
  "return_st v h = (Inr v, h)"

definition bind_st :: "'a prog \<Rightarrow> ('a \<Rightarrow> 'b prog) \<Rightarrow> 'b prog" where
  "bind_st m f h = (case m h of (Inl e, h') \<Rightarrow> (Inl e, h') | (Inr v, h') \<Rightarrow> f v h')"

text \<open>\<^verbatim>\<open>df[c]\<close> raises KeyError for a missing column.\<close>

definition getitem :: "ref \<Rightarrow> string \<Rightarrow> series prog" where
  "getitem df c h =
     (case map_of (h df) c of None \<Rightarrow> (Inl (KeyError c), h) | Some s \<Rightarrow> (Inr s, h))"

text \<open>
  \<^verbatim>\<open>df[c] = s\<close> replaces the column in place when it exists and appends it as the last
  column otherwise.
\<close>

definition setitem :: "ref \<Rightarrow> string \<Rightarrow> series \<Rightarrow> unit prog" where
  "setitem df c s h = (Inr (), h(df := AList.update c s (h df)))"

text \<open>\<^verbatim>\<open>calculate_metrics(df)\<close>: the statements of the source, one after the other.\<close>

definition calculate_metrics :: "ref \<Rightarrow> ref prog" where
  "calculate_metrics df =
     bind_st (getitem df ''Close'') (\<lambda>c.
     bind_st (setitem df ''SMA_20'' (rolling 20 mean c)) (\<lambda>_.
     bind_st (getitem df ''Close'') (\<lambda>c.
     bind_st (setitem df ''SMA_50'' (rolling 50 mean c)) (\<lambda>_.
     bind_st (getitem df ''Close'') (\<lambda>c.
     bind_st (setitem df ''RSI'' (calculate_rsi c 14)) (\<lambda>_.
     bind_st (getitem df ''Close'') (\<lambda>c.
     let exp1 = ewm_mean 12 c in
     bind_st (getitem df ''Close'') (\<lambda>c.
     let exp2 = ewm_mean 26 c in
     bind_st (setitem df ''MACD'' (map2 fsub exp1 exp2)) (\<lambda>_.
     bind_st (getitem df ''MACD'') (\<lambda>m.
     bind_st (setitem df ''Signal_Line'' (ewm_mean 9 m)) (\<lambda>_.
     bind_st (getitem df ''Close'') (\<lambda>c.
     bind_st (setitem df ''BB_middle'' (rolling 20 mean c)) (\<lambda>_.
     bind_st (getitem df ''BB_middle'') (\<lambda>mid.
     bind_st (getitem df ''Close'') (\<lambda>c.
     bind_st (setitem df ''BB_upper''
                (map2 fadd mid (map (fmul (Finite 2)) (rolling 20 std c)))) (\<lambda>_.
     bind_st (getitem df ''BB_middle'') (\<lambda>mid.
     bind_st (getitem df ''Close'') (\<lambda>c.
     bind_st (setitem df ''BB_lower''
                (map2 fsub mid (map (fmul (Finite 2)) (rolling 20 std c)))) (\<lambda>_.
     return_st df)))))))))))))))))))"

text \<open>
  The table the successful run leaves behind, as one expression: the eight derived
  columns, each a function of the Close column alone.
\<close>

definition derived_columns :: "series \<Rightarrow> (string \<times> series) list" where
  "derived_columns c =
     [(''SMA_20'', rolling 20 mean c),
      (''SMA_50'', rolling 50 mean c),
      (''RSI'', calculate_rsi c 14),
      (''MACD'', map2 fsub (ewm_mean 12 c) (ewm_mean 26 c)),
      (''Signal_Line'', ewm_mean 9 (map2 fsub (ewm_mean 12 c) (ewm_mean 26 c))),
      (''BB_middle'', rolling 20 mean c),
      (''BB_upper'', map2 fadd (rolling 20 mean c) (map (fmul (Finite 2)) (rolling 20 std c))),
      (''BB_lower'', map2 fsub (rolling 20 mean c) (map (fmul (Finite 2)) (rolling 20 std c)))]"

definition with_columns :: "(string \<times> series) list \<Rightarrow> dataframe \<Rightarrow> dataframe" where
  "with_columns cols t = fold (\<lambda>(k, v). AList.update k v) cols t"

fun nonneg :: "float64 \<Rightarrow> bool" where
  "nonneg (Finite a) = (0 \<le> a)"
| "nonneg PosInf = True"
| "nonneg _ = False"

text \<open>A small table of three sessions, and a heap that holds it at every reference.\<close>

definition example_table :: dataframe where
  "example_table =
     [(''Open'', [Finite 10, Finite 11, Finite 12]),
      (''High'', [Finite 12, Finite 12, Finite 13]),
      (''Low'', [Finite 9, Finite 10, Finite 11]),
      (''Close'', [Finite 11, Finite 12, Finite 11]),
      (''Volume'', [Finite 1000, Finite 1500, Finite 1200])]"

definition example_heap :: heap where
  "example_heap = (\<lambda>r. example_table)"

section \<open>Properties of the window functions and of the RSI\<close>

lemma length_diff: "length (diff s) = length s"
  by (cases s) simp_all

lemma length_rolling: "length (rolling w agg s) = length s"
  by (simp add: rolling_def)

lemma rolling_nth:
  "i < length s \<Longrightarrow> rolling w agg s ! i =
     (if i + 1 < w then NaN
      else (case those (map prep_value (take w (drop (i + 1 - w) s))) of
              None \<Rightarrow> NaN | Some win \<Rightarrow> agg win))"
  by (simp add: rolling_def)

lemma diff_nth:
  "i < length s \<Longrightarrow> diff s ! i = (if i = 0 then NaN else fsub (s ! i) (s ! (i - 1)))"
proof (cases s)
  case Nil
  assume "i < length s"
  then show ?thesis using Nil by simp
next
  case (Cons x xs)
  assume "i < length s"
  then show ?thesis using Cons
    by (cases i) (simp_all add: nth_Cons')
qed

lemma those_map_Some:
  "those (map f xs) = Some ys \<Longrightarrow> y \<in> set ys \<Longrightarrow> \<exists>x\<in>set xs. f x = Some y"
proof (induction xs arbitrary: ys)
  case Nil
  then show ?case by simp
next
  case (Cons x xs)
  then show ?case by (auto split: option.splits)
qed

lemma those_map_Finite: "those (map (\<lambda>x. prep_value (Finite x)) xs) = Some xs"
  by (induction xs) (simp_all add: prep_value_def)

lemma rolling_Finite_nth:
  "i < length xs \<Longrightarrow> rolling w agg (map Finite xs) ! i =
     (if i + 1 < w then NaN else agg (take w (drop (i + 1 - w) xs)))"
  by (simp add: rolling_nth drop_map take_map those_map_Finite comp_def)

lemma nonneg_gain: "fgt d (Finite 0) \<Longrightarrow> nonneg d"
  by (cases d) (simp_all add: fgt_def)

lemma nonneg_loss: "flt d (Finite 0) \<Longrightarrow> nonneg (fneg d)"
  by (cases d) simp_all

lemma gains_nonneg: "list_all nonneg (where_series (\<lambda>d. fgt d (Finite 0)) (Finite 0) s)"
  by (induction s) (simp_all add: where_series_def nonneg_gain)

lemma losses_nonneg:
  "list_all nonneg (map fneg (where_series (\<lambda>d. flt d (Finite 0)) (Finite 0) s))"
  by (induction s) (simp_all add: where_series_def nonneg_loss)

lemma mean_nonneg:
  assumes "those (map prep_value xs) = Some ys" "list_all nonneg xs"
  shows "mean ys = NaN \<or> (\<exists>a\<ge>0. mean ys = Finite a)"
proof -
  have "0 \<le> y" if yin: "y \<in> set ys" for y
  proof -
    obtain x where x: "x \<in> set xs" "prep_value x = Some y"
      using those_map_Some[OF assms(1) yin] by blast
    have "nonneg x" using assms(2) x(1) by (simp add: list_all_iff)
    with x(2) show "0 \<le> y" by (cases x) (simp_all add: prep_value_def)
  qed
  then have "0 \<le> sum_list ys" by (simp add: sum_list_nonneg)
  then show ?thesis by (simp add: mean_def)
qed

lemma rolling_mean_nonneg:
  assumes "list_all nonneg s" "i < length s"
  shows "rolling w mean s ! i = NaN \<or> (\<exists>a\<ge>0. rolling w mean s ! i = Finite a)"
proof -
  have win: "list_all nonneg (take w (drop (i + 1 - w) s))"
    using assms(1) by (auto simp: list_all_iff dest: in_set_takeD in_set_dropD)
  show ?thesis
  proof (cases "those (map prep_value (take w (drop (i + 1 - w) s)))")
    case None
    then show ?thesis using assms(2) by (simp add: rolling_nth)
  next
    case (Some ys)
    then show ?thesis using assms(2) mean_nonneg[OF Some win] by (simp add: rolling_nth)
  qed
qed

lemma length_rsi_gain: "length (rsi_gain prices p) = length prices"
  by (simp add: rsi_gain_def length_rolling where_series_def length_diff)

lemma length_rsi_loss: "length (rsi_loss prices p) = length prices"
  by (simp add: rsi_loss_def length_rolling where_series_def length_diff)

lemma calculate_rsi_nth:
  "i < length prices \<Longrightarrow> calculate_rsi prices p ! i =
     fsub (Finite 100) (fdiv (Finite 100)
       (fadd (Finite 1) (fdiv (rsi_gain prices p ! i) (rsi_loss prices p ! i))))"
  by (simp add: calculate_rsi_def Let_def length_rsi_gain length_rsi_loss)

lemma rsi_gain_nonneg:
  assumes "i < length prices"
  shows "rsi_gain prices p ! i = NaN \<or> (\<exists>a\<ge>0. rsi_gain prices p ! i = Finite a)"
  unfolding rsi_gain_def Let_def
  by (rule rolling_mean_nonneg[OF gains_nonneg])
     (simp add: where_series_def length_diff assms)

lemma rsi_loss_nonneg:
  assumes "i < length prices"
  shows "rsi_loss prices p ! i = NaN \<or> (\<exists>a\<ge>0. rsi_loss prices p ! i = Finite a)"
  unfolding rsi_loss_def Let_def
  by (rule rolling_mean_nonneg[OF losses_nonneg])
     (simp add: where_series_def length_diff assms)

lemma rsi_zero_loss:
  assumes "i < length prices" "rsi_loss prices p ! i = Finite 0"
  shows "calculate_rsi prices p ! i =
     (case rsi_gain prices p ! i of
        Finite g \<Rightarrow> if 0 < g then Finite 100 else NaN
      | _ \<Rightarrow> NaN)"
  using rsi_gain_nonneg[OF assms(1), of p] assms
  by (auto simp: calculate_rsi_nth fsub_def)

lemma rsi_in_range:
  assumes "i < length prices"
  shows "calculate_rsi prices p ! i = NaN \<or>
         (\<exists>r. 0 \<le> r \<and> r \<le> 100 \<and> calculate_rsi prices p ! i = Finite r)"
proof -
  consider "rsi_gain prices p ! i = NaN" | "rsi_loss prices p ! i = NaN"
    | g l where "0 \<le> g" "0 \<le> l" "rsi_gain prices p ! i = Finite g" "rsi_loss prices p ! i = Finite l"
    using rsi_gain_nonneg[OF assms, of p] rsi_loss_nonneg[OF assms, of p] by blast
  then show ?thesis
  proof cases
    case 1
    then show ?thesis using assms by (simp add: calculate_rsi_nth fsub_def)
  next
    case 2
    then show ?thesis using assms
      by (cases "rsi_gain prices p ! i") (simp_all add: calculate_rsi_nth fsub_def)
  next
    case 3
    show ?thesis
    proof (cases "l = 0")
      case True
      then show ?thesis using 3 assms by (simp add: calculate_rsi_nth fsub_def)
    next
      case False
      have q0: "0 \<le> g / l" using 3 by simp
      then have q: "1 + g / l \<noteq> 0" "0 < 1 + g / l" by linarith+
      have "100 / (1 + g / l) \<le> 100 / 1"
        using q q0 by (intro divide_left_mono) simp_all
      moreover have "0 \<le> 100 / (1 + g / l)" using q by simp
      ultimately show ?thesis using 3 False q assms
        by (simp add: calculate_rsi_nth fsub_def)
    qed
  qed
qed


subsection \<open>Claim C1: zero average loss\<close>

lemma flat_prices_loss:
  "rsi_loss [Finite 10, Finite 10, Finite 10, Finite 10, Finite 10, Finite 10, Finite 10, Finite 10, Finite 10, Finite 10, Finite 10, Finite 10, Finite 10, Finite 10, Finite 10] 14 ! 14 = Finite 0"
  by (simp add: rsi_loss_def rolling_nth where_series_def fsub_def prep_value_def mean_def)

lemma flat_prices_gain:
  "rsi_gain [Finite 10, Finite 10, Finite 10, Finite 10, Finite 10, Finite 10, Finite 10, Finite 10, Finite 10, Finite 10, Finite 10, Finite 10, Finite 10, Finite 10, Finite 10] 14 ! 14 = Finite 0"
  by (simp add: rsi_gain_def rolling_nth where_series_def fsub_def fgt_def prep_value_def mean_def)

lemma rising_prices_loss:
  "rsi_loss [Finite 1, Finite 2, Finite 3, Finite 4, Finite 5, Finite 6, Finite 7, Finite 8, Finite 9, Finite 10, Finite 11, Finite 12, Finite 13, Finite 14, Finite 15] 14 ! 14 = Finite 0"
  by (simp add: rsi_loss_def rolling_nth where_series_def fsub_def prep_value_def mean_def)

lemma rising_prices_gain:
  "rsi_gain [Finite 1, Finite 2, Finite 3, Finite 4, Finite 5, Finite 6, Finite 7, Finite 8, Finite 9, Finite 10, Finite 11, Finite 12, Finite 13, Finite 14, Finite 15] 14 ! 14 = Finite 1"
  by (simp add: rsi_gain_def rolling_nth where_series_def fsub_def fgt_def prep_value_def mean_def)

text \<open>
  Claim C1 as stated fails: on fifteen equal prices the average loss at the last
  position is zero, the lookback window is full, and the RSI is NaN, not 100.
\<close>

theorem calculate_rsi_flat_counterexample:
  "rsi_loss [Finite 10, Finite 10, Finite 10, Finite 10, Finite 10, Finite 10, Finite 10, Finite 10, Finite 10, Finite 10, Finite 10, Finite 10, Finite 10, Finite 10, Finite 10] 14 ! 14 = Finite 0 \<and>
   calculate_rsi [Finite 10, Finite 10, Finite 10, Finite 10, Finite 10, Finite 10, Finite 10, Finite 10, Finite 10, Finite 10, Finite 10, Finite 10, Finite 10, Finite 10, Finite 10] 14 ! 14 = NaN"
  using rsi_zero_loss[of 14 "[Finite 10, Finite 10, Finite 10, Finite 10, Finite 10, Finite 10, Finite 10, Finite 10, Finite 10, Finite 10, Finite 10, Finite 10, Finite 10, Finite 10, Finite 10]" 14]
  by (simp add: flat_prices_loss flat_prices_gain)

text \<open>
  Claim C1, amended: wherever the 14-period average loss is zero (which puts the
  position at index 13 or later, where the window is full), \<open>calculate_rsi\<close> yields 100
  when the average gain at that position is a positive number, and NaN when the average
  gain is zero or itself undefined.
\<close>

theorem calculate_rsi_zero_loss:
  assumes "i < length prices" and "rsi_loss prices 14 ! i = Finite 0"
  shows "13 \<le> i \<and>
         calculate_rsi prices 14 ! i =
           (case rsi_gain prices 14 ! i of
              Finite g \<Rightarrow> if 0 < g then Finite 100 else NaN
            | _ \<Rightarrow> NaN)"
proof
  have "rsi_loss prices 14 ! i = NaN" if "i + 1 < 14"
    using that assms(1)
    by (simp add: rsi_loss_def Let_def rolling_nth where_series_def length_diff)
  with assms(2) show "13 \<le> i" by fastforce
  show "calculate_rsi prices 14 ! i =
           (case rsi_gain prices 14 ! i of
              Finite g \<Rightarrow> if 0 < g then Finite 100 else NaN
            | _ \<Rightarrow> NaN)"
    by (rule rsi_zero_loss[OF assms])
qed

theorem calculate_rsi_zero_loss_witness:
  "14 < length [Finite 1, Finite 2, Finite 3, Finite 4, Finite 5, Finite 6, Finite 7, Finite 8, Finite 9, Finite 10, Finite 11, Finite 12, Finite 13, Finite 14, Finite 15] \<and>
   rsi_loss [Finite 1, Finite 2, Finite 3, Finite 4, Finite 5, Finite 6, Finite 7, Finite 8, Finite 9, Finite 10, Finite 11, Finite 12, Finite 13, Finite 14, Finite 15] 14 ! 14 = Finite 0 \<and>
   calculate_rsi [Finite 1, Finite 2, Finite 3, Finite 4, Finite 5, Finite 6, Finite 7, Finite 8, Finite 9, Finite 10, Finite 11, Finite 12, Finite 13, Finite 14, Finite 15] 14 ! 14 = Finite 100"
  using calculate_rsi_zero_loss[of 14 "[Finite 1, Finite 2, Finite 3, Finite 4, Finite 5, Finite 6, Finite 7, Finite 8, Finite 9, Finite 10, Finite 11, Finite 12, Finite 13, Finite 14, Finite 15]", OF _ rising_prices_loss]
  by (simp add: rising_prices_loss rising_prices_gain)


subsection \<open>Claim C7: the RSI of rising prices\<close>

lemma diff_Finite_nth:
  "j < length rs \<Longrightarrow> diff (map Finite rs) ! j =
     (if j = 0 then NaN else Finite (rs ! j - rs ! (j - 1)))"
  by (simp add: diff_nth fsub_def)

lemma losses_sorted:
  assumes "sorted rs"
  shows "map fneg (where_series (\<lambda>d. flt d (Finite 0)) (Finite 0) (diff (map Finite rs))) =
         map Finite (replicate (length rs) 0)"
proof (rule nth_equalityI)
  show "length (map fneg (where_series (\<lambda>d. flt d (Finite 0)) (Finite 0) (diff (map Finite rs)))) =
        length (map Finite (replicate (length rs) 0))"
    by (simp add: where_series_def length_diff)
next
  fix j
  assume "j < length (map fneg (where_series (\<lambda>d. flt d (Finite 0)) (Finite 0) (diff (map Finite rs))))"
  then have j: "j < length rs" by (simp add: where_series_def length_diff)
  have "rs ! (j - 1) \<le> rs ! j" using assms j by (simp add: sorted_nth_mono)
  then show "map fneg (where_series (\<lambda>d. flt d (Finite 0)) (Finite 0) (diff (map Finite rs))) ! j =
        map Finite (replicate (length rs) 0) ! j"
    using j by (simp add: where_series_def length_diff diff_Finite_nth)
qed

lemma mean_Nil: "mean [] = NaN"
  by (simp add: mean_def)

lemma mean_replicate_zero: "mean (replicate k 0) = (if k = 0 then NaN else Finite 0)"
  by (simp add: mean_def sum_list_replicate)

lemma rsi_loss_sorted_eq:
  assumes "sorted rs" "i < length rs"
  shows "rsi_loss (map Finite rs) p ! i = (if i + 1 < p \<or> p = 0 then NaN else Finite 0)"
proof -
  have "rsi_loss (map Finite rs) p = rolling p mean (map Finite (replicate (length rs) 0))"
    by (simp only: rsi_loss_def Let_def losses_sorted[OF assms(1)])
  moreover have "i < length (replicate (length rs) (0::real))" using assms(2) by simp
  ultimately show ?thesis
    using assms(2) by (simp only: rolling_Finite_nth) (auto simp: mean_replicate_zero mean_Nil)
qed

lemma rsi_loss_sorted:
  assumes "sorted rs" "i < length rs"
  shows "rsi_loss (map Finite rs) p ! i = NaN \<or> rsi_loss (map Finite rs) p ! i = Finite 0"
  by (simp add: rsi_loss_sorted_eq[OF assms])

lemma rsi_nan_loss:
  assumes "i < length prices" "rsi_loss prices p ! i = NaN"
  shows "calculate_rsi prices p ! i = NaN"
  using assms by (cases "rsi_gain prices p ! i") (simp_all add: calculate_rsi_nth fsub_def)

lemma rsi_sorted:
  assumes "sorted rs" "i < length rs"
  shows "calculate_rsi (map Finite rs) p ! i = NaN \<or>
         calculate_rsi (map Finite rs) p ! i = Finite 100"
proof -
  have i: "i < length (map Finite rs)" using assms(2) by simp
  from rsi_loss_sorted[OF assms, of p] show ?thesis
  proof
    assume "rsi_loss (map Finite rs) p ! i = NaN"
    then show ?thesis using rsi_nan_loss[OF i] by simp
  next
    assume "rsi_loss (map Finite rs) p ! i = Finite 0"
    then show ?thesis using rsi_zero_loss[OF i]
      by (cases "rsi_gain (map Finite rs) p ! i") simp_all
  qed
qed

lemma gains_strict:
  assumes "sorted_wrt (<) rs"
  shows "where_series (\<lambda>d. fgt d (Finite 0)) (Finite 0) (diff (map Finite rs)) =
         map Finite (map (\<lambda>j. if j = 0 then 0 else rs ! j - rs ! (j - 1)) [0..<length rs])"
proof (rule nth_equalityI)
  show "length (where_series (\<lambda>d. fgt d (Finite 0)) (Finite 0) (diff (map Finite rs))) =
        length (map Finite (map (\<lambda>j. if j = 0 then 0 else rs ! j - rs ! (j - 1)) [0..<length rs]))"
    by (simp add: where_series_def length_diff)
next
  fix j
  assume "j < length (where_series (\<lambda>d. fgt d (Finite 0)) (Finite 0) (diff (map Finite rs)))"
  then have j: "j < length rs" by (simp add: where_series_def length_diff)
  have "rs ! (j - 1) < rs ! j" if "0 < j"
    using assms j that by (simp add: sorted_wrt_nth_less)
  then show "where_series (\<lambda>d. fgt d (Finite 0)) (Finite 0) (diff (map Finite rs)) ! j =
        map Finite (map (\<lambda>j. if j = 0 then 0 else rs ! j - rs ! (j - 1)) [0..<length rs]) ! j"
    using j by (simp add: where_series_def length_diff diff_Finite_nth fgt_def)
qed

lemma rsi_gain_strict:
  assumes "sorted_wrt (<) rs" "i < length rs" "p \<le> i + 1" "0 < i" "0 < p"
  shows "\<exists>g>0. rsi_gain (map Finite rs) p ! i = Finite g"
proof -
  define gs where "gs = map (\<lambda>j. if j = 0 then 0 else rs ! j - rs ! (j - 1)) [0..<length rs]"
  define win where "win = take p (drop (i + 1 - p) gs)"
  have len: "length gs = length rs" by (simp add: gs_def)
  have step: "rs ! (j - 1) < rs ! j" if "0 < j" "j < length rs" for j
    using assms(1) that by (simp add: sorted_wrt_nth_less)
  have gs_nth: "0 \<le> gs ! j" if "j < length rs" for j
    using that step[of j] by (auto simp: gs_def)
  have nonneg: "0 \<le> x" if "x \<in> set gs" for x
    using that gs_nth len by (auto simp: in_set_conv_nth)
  have gi: "0 < gs ! i"
    using assms(2,4) step[of i] by (simp add: gs_def)
  have wlen: "length win = p" using assms(2,3) len by (simp add: win_def)
  have wlast: "win ! (p - 1) = gs ! i"
    using assms(2,3,5) len by (simp add: win_def)
  have mem: "gs ! i \<in> set win"
    using wlen wlast assms(5) nth_mem[of "p - 1" win] by simp
  have "set win \<subseteq> set gs"
    unfolding win_def by (meson set_drop_subset set_take_subset subset_trans)
  then have wn: "\<forall>x\<in>set win. 0 \<le> x" using nonneg by blast
  then have "0 \<le> sum_list win" by (simp add: sum_list_nonneg)
  moreover have "sum_list win \<noteq> 0"
    using sum_list_nonneg_eq_0_iff[of win] wn mem gi by auto
  ultimately have pos: "0 < sum_list win / real (length win)"
    using wlen assms(5) by simp
  have "rsi_gain (map Finite rs) p = rolling p mean (map Finite gs)"
    by (simp only: rsi_gain_def Let_def gains_strict[OF assms(1)] gs_def)
  moreover have "i < length gs" using assms(2) len by simp
  ultimately have "rsi_gain (map Finite rs) p ! i = mean win"
    using assms(3) by (simp only: rolling_Finite_nth win_def) simp
  moreover have "win \<noteq> []" using wlen assms(5) by auto
  ultimately show ?thesis using pos by (simp add: mean_def)
qed

lemma rsi_strict:
  assumes "sorted_wrt (<) rs" "i < length rs" "13 \<le> i"
  shows "calculate_rsi (map Finite rs) 14 ! i = Finite 100"
proof -
  have i: "i < length (map Finite rs)" using assms(2) by simp
  have srt: "sorted rs" using assms(1) by (simp add: strict_sorted_imp_sorted)
  obtain g where g: "0 < g" "rsi_gain (map Finite rs) 14 ! i = Finite g"
    using rsi_gain_strict[OF assms(1,2), of 14] assms(3) by auto
  have "rsi_loss (map Finite rs) 14 ! i = Finite 0"
    using assms(3) by (simp add: rsi_loss_sorted_eq[OF srt assms(2)])
  then show ?thesis using rsi_zero_loss[OF i, of 14] g by simp
qed


text \<open>
  Claim C7: every defined (non-NaN) value of \<open>calculate_rsi\<close> lies in \<open>[0, 100]\<close>, for
  every input series; on a monotonically increasing series of prices every defined value
  is 100; and on a strictly increasing series the value is defined, and 100, at every
  position from index 13 on.
\<close>

theorem calculate_rsi_rising:
  "(\<forall>i<length prices.
      calculate_rsi prices 14 ! i = NaN \<or>
      (\<exists>r. 0 \<le> r \<and> r \<le> 100 \<and> calculate_rsi prices 14 ! i = Finite r)) \<and>
   (sorted closes \<longrightarrow>
      (\<forall>i<length closes.
         calculate_rsi (map Finite closes) 14 ! i = NaN \<or>
         calculate_rsi (map Finite closes) 14 ! i = Finite 100)) \<and>
   (sorted_wrt (<) closes \<longrightarrow>
      (\<forall>i<length closes. 13 \<le> i \<longrightarrow>
         calculate_rsi (map Finite closes) 14 ! i = Finite 100))"
proof (intro conjI impI allI)
  fix i assume "i < length prices"
  then show "calculate_rsi prices 14 ! i = NaN \<or>
      (\<exists>r. 0 \<le> r \<and> r \<le> 100 \<and> calculate_rsi prices 14 ! i = Finite r)"
    by (rule rsi_in_range)
next
  fix i assume "sorted closes" "i < length closes"
  then show "calculate_rsi (map Finite closes) 14 ! i = NaN \<or>
         calculate_rsi (map Finite closes) 14 ! i = Finite 100"
    by (rule rsi_sorted)
next
  fix i assume "sorted_wrt (<) closes" "i < length closes" "13 \<le> i"
  then show "calculate_rsi (map Finite closes) 14 ! i = Finite 100"
    by (rule rsi_strict)
qed

theorem calculate_rsi_rising_witness:
  "sorted_wrt (<) ([1, 2, 3, 4, 5, 6, 7, 8, 9, 10, 11, 12, 13, 14, 15] :: real list) \<and>
   calculate_rsi (map Finite [1, 2, 3, 4, 5, 6, 7, 8, 9, 10, 11, 12, 13, 14, 15]) 14 ! 14 = Finite 100"
proof -
  have s: "sorted_wrt (<) ([1, 2, 3, 4, 5, 6, 7, 8, 9, 10, 11, 12, 13, 14, 15] :: real list)"
    by simp
  have "\<forall>i<length ([1, 2, 3, 4, 5, 6, 7, 8, 9, 10, 11, 12, 13, 14, 15] :: real list). 13 \<le> i \<longrightarrow>
         calculate_rsi (map Finite [1, 2, 3, 4, 5, 6, 7, 8, 9, 10, 11, 12, 13, 14, 15]) 14 ! i = Finite 100"
    using calculate_rsi_rising[of "[]" "[1, 2, 3, 4, 5, 6, 7, 8, 9, 10, 11, 12, 13, 14, 15]"] s by blast
  then have "calculate_rsi (map Finite ([1, 2, 3, 4, 5, 6, 7, 8, 9, 10, 11, 12, 13, 14, 15] :: real list)) 14 ! 14 = Finite 100"
    by (elim allE[of _ 14]) simp
  with s show ?thesis by blast
qed


section \<open>Properties of \<open>calculate_metrics\<close>\<close>

lemma calculate_metrics_eq:
  "calculate_metrics df h =
     (case map_of (h df) ''Close'' of
        None \<Rightarrow> (Inl (KeyError ''Close''), h)
      | Some c \<Rightarrow> (Inr df, h(df := with_columns (derived_columns c) (h df))))"
  by (simp add: calculate_metrics_def bind_st_def getitem_def setitem_def return_st_def
      Let_def update_conv' with_columns_def derived_columns_def split: option.splits)

lemma map_of_with_derived:
  "map_of (with_columns (derived_columns c) t) =
     (map_of t)(''SMA_20'' \<mapsto> rolling 20 mean c,
       ''SMA_50'' \<mapsto> rolling 50 mean c,
       ''RSI'' \<mapsto> calculate_rsi c 14,
       ''MACD'' \<mapsto> map2 fsub (ewm_mean 12 c) (ewm_mean 26 c),
       ''Signal_Line'' \<mapsto> ewm_mean 9 (map2 fsub (ewm_mean 12 c) (ewm_mean 26 c)),
       ''BB_middle'' \<mapsto> rolling 20 mean c,
       ''BB_upper'' \<mapsto> map2 fadd (rolling 20 mean c) (map (fmul (Finite 2)) (rolling 20 std c)),
       ''BB_lower'' \<mapsto> map2 fsub (rolling 20 mean c) (map (fmul (Finite 2)) (rolling 20 std c)))"
  by (simp add: with_columns_def derived_columns_def update_conv')

lemma with_derived_Close:
  "map_of (with_columns (derived_columns c) t) ''Close'' = map_of t ''Close''"
  by (simp add: map_of_with_derived)

lemma with_derived_idem:
  "with_columns (derived_columns c) (with_columns (derived_columns c) t) =
   with_columns (derived_columns c) t"
proof -
  define t' where "t' = with_columns (derived_columns c) t"
  have m: "map_of t' k = Some v" if "(k, v) \<in> set (derived_columns c)" for k v
    using that unfolding t'_def map_of_with_derived
    by (auto simp: derived_columns_def)
  have "with_columns (derived_columns c) t' = t'"
    unfolding with_columns_def derived_columns_def
    using m by (simp add: AList.update_triv derived_columns_def)
  then show ?thesis by (simp add: t'_def)
qed

lemma rolling_short:
  "length s < w \<Longrightarrow> rolling w agg s = replicate (length s) NaN"
  by (rule nth_equalityI) (simp_all add: length_rolling rolling_nth)

lemma map2_NaN_left:
  "length ys = n \<Longrightarrow> map2 fadd (replicate n NaN) ys = replicate n NaN"
  by (rule nth_equalityI) simp_all

lemma map2_fsub_NaN_left:
  "length ys = n \<Longrightarrow> map2 fsub (replicate n NaN) ys = replicate n NaN"
  by (rule nth_equalityI) (simp_all add: fsub_def)

lemma ewm_from_Some:
  "ewm_from alpha (Some y, 1) (map Some xs) = map Some (ema_from alpha y xs)"
proof (induction xs arbitrary: y)
  case Nil
  then show ?case by simp
next
  case (Cons x xs)
  have "(1 - alpha) * x + alpha * x = x" by (simp add: algebra_simps)
  then show ?case using Cons by (simp add: Let_def)
qed

lemma ewm_mean_Finite: "ewm_mean n (map Finite xs) = map Finite (ema n xs)"
proof (cases xs)
  case Nil
  then show ?thesis by (simp add: ewm_mean_def)
next
  case (Cons x xs')
  have "map prep_value (map Finite xs') = map Some xs'"
    by (simp add: prep_value_def)
  then show ?thesis using Cons
    by (simp add: ewm_mean_def Let_def prep_value_def unprep_value_def ewm_from_Some comp_def)
qed

lemma length_ewm_from: "length (ewm_from alpha st vs) = length vs"
  by (induction vs arbitrary: st) (simp_all add: Let_def)

lemma length_ewm_mean: "length (ewm_mean n s) = length s"
  by (cases s) (simp_all add: ewm_mean_def Let_def length_ewm_from)

lemma length_ema_from: "length (ema_from alpha y xs) = length xs"
  by (induction xs arbitrary: y) (simp_all add: Let_def)

lemma length_ema: "length (ema n xs) = length xs"
  by (cases xs) (simp_all add: length_ema_from)

lemma map2_fsub_Finite:
  "map2 fsub (map Finite xs) (map Finite ys) = map Finite (map2 (-) xs ys)"
  by (induction xs ys rule: list_induct2') (simp_all add: fsub_def)

lemma distinct_with_columns:
  "distinct (map fst t) \<Longrightarrow> distinct (map fst (with_columns cols t))"
  unfolding with_columns_def
  by (induction cols arbitrary: t) (auto simp: AList.distinct_update)

lemma example_Close: "map_of (example_heap r) ''Close'' = Some [Finite 11, Finite 12, Finite 11]"
  by (simp add: example_heap_def example_table_def)

subsection \<open>Claim C2: effects of \<open>calculate_metrics\<close>\<close>

text \<open>
  Claim C2 as stated fails: the table the caller passed has no column \<open>SMA_20\<close> before
  the call and has one after it, so the caller's table is changed by the call.
\<close>

theorem calculate_metrics_mutates_counterexample:
  "map_of (example_heap 0) ''SMA_20'' = None \<and>
   map_of (snd (calculate_metrics 0 example_heap) 0) ''SMA_20'' = Some [NaN, NaN, NaN]"
  by (simp add: calculate_metrics_eq example_Close map_of_with_derived rolling_short)
     (simp add: example_heap_def example_table_def)

text \<open>
  Claim C2, amended: \<open>calculate_metrics\<close> is a function of the table it is given (the
  same input gives the same output), but it is not pure. On a table without a Close
  column it raises KeyError and changes nothing. Otherwise it assigns the eight derived
  columns into the caller's table in place and returns a reference to that same table;
  every other column of that table, and every other table, is unchanged.
\<close>

theorem calculate_metrics_frame:
  "(map_of (h df) ''Close'' = None \<longrightarrow>
      calculate_metrics df h = (Inl (KeyError ''Close''), h)) \<and>
   (\<forall>c. map_of (h df) ''Close'' = Some c \<longrightarrow>
      (\<exists>h'. calculate_metrics df h = (Inr df, h') \<and>
            h' df = with_columns (derived_columns c) (h df) \<and>
            (\<forall>r. r \<noteq> df \<longrightarrow> h' r = h r) \<and>
            (\<forall>k. k \<notin> set (map fst (derived_columns c)) \<longrightarrow>
                 map_of (h' df) k = map_of (h df) k)))"
proof (intro conjI impI allI)
  assume "map_of (h df) ''Close'' = None"
  then show "calculate_metrics df h = (Inl (KeyError ''Close''), h)"
    by (simp add: calculate_metrics_eq)
next
  fix c assume c: "map_of (h df) ''Close'' = Some c"
  have "\<forall>k. k \<notin> set (map fst (derived_columns c)) \<longrightarrow>
          map_of (with_columns (derived_columns c) (h df)) k = map_of (h df) k"
    unfolding map_of_with_derived by (simp add: derived_columns_def)
  then show "\<exists>h'. calculate_metrics df h = (Inr df, h') \<and>
            h' df = with_columns (derived_columns c) (h df) \<and>
            (\<forall>r. r \<noteq> df \<longrightarrow> h' r = h r) \<and>
            (\<forall>k. k \<notin> set (map fst (derived_columns c)) \<longrightarrow>
                 map_of (h' df) k = map_of (h df) k)"
    using c by (simp add: calculate_metrics_eq)
qed

theorem calculate_metrics_frame_witness:
  "map_of (example_heap 0) ''Close'' = Some [Finite 11, Finite 12, Finite 11] \<and>
   fst (calculate_metrics 0 example_heap) = Inr 0 \<and>
   snd (calculate_metrics 0 example_heap) 1 = example_heap 1 \<and>
   map_of (snd (calculate_metrics 0 example_heap) 0) ''Open'' = map_of (example_heap 0) ''Open''"
proof -
  obtain h' where h': "calculate_metrics 0 example_heap = (Inr 0, h')"
      "\<forall>r. r \<noteq> 0 \<longrightarrow> h' r = example_heap r"
      "\<forall>k. k \<notin> set (map fst (derived_columns [Finite 11, Finite 12, Finite 11])) \<longrightarrow>
                 map_of (h' 0) k = map_of (example_heap 0) k"
    using calculate_metrics_frame[of example_heap 0] example_Close[of 0] by blast
  have "''Open'' \<notin> set (map fst (derived_columns [Finite 11, Finite 12, Finite 11]))"
    by (simp add: derived_columns_def)
  then show ?thesis using h' example_Close[of 0] by simp
qed

subsection \<open>Claim C9: running the engine on its own output\<close>

text \<open>
  Claim C9: when \<open>calculate_metrics\<close> succeeds, applying it to its own output succeeds
  and leaves every table exactly as the first run left it: the derived columns are
  recomputed to the same values, in the same places, and no column is added twice
  (column names that were distinct stay distinct).
\<close>

theorem calculate_metrics_idempotent:
  assumes "calculate_metrics df h = (Inr out, h')"
  shows "calculate_metrics out h' = (Inr out, h') \<and>
         (distinct (map fst (h df)) \<longrightarrow> distinct (map fst (h' out)))"
proof -
  obtain c where c: "map_of (h df) ''Close'' = Some c"
    using assms by (cases "map_of (h df) ''Close''") (simp_all add: calculate_metrics_eq)
  have out: "out = df" and h': "h' = h(df := with_columns (derived_columns c) (h df))"
    using assms c by (auto simp: calculate_metrics_eq)
  have "map_of (h' df) ''Close'' = Some c"
    using c by (simp add: h' with_derived_Close)
  then have "calculate_metrics df h' = (Inr df, h')"
    by (simp add: calculate_metrics_eq) (simp add: h' with_derived_idem)
  moreover have "distinct (map fst (h df)) \<longrightarrow> distinct (map fst (h' df))"
    by (simp add: h' distinct_with_columns)
  ultimately show ?thesis by (simp add: out)
qed

theorem calculate_metrics_idempotent_witness:
  "fst (calculate_metrics 0 example_heap) = Inr 0 \<and>
   calculate_metrics 0 (snd (calculate_metrics 0 example_heap)) =
     (Inr 0, snd (calculate_metrics 0 example_heap))"
proof -
  have r: "calculate_metrics 0 example_heap = (Inr 0, snd (calculate_metrics 0 example_heap))"
    by (simp add: calculate_metrics_eq example_Close)
  have "calculate_metrics 0 (snd (calculate_metrics 0 example_heap)) =
     (Inr 0, snd (calculate_metrics 0 example_heap))"
    using calculate_metrics_idempotent[OF r] by (rule conjunct1)
  moreover have "fst (calculate_metrics 0 example_heap) = Inr 0"
    by (subst r) simp
  ultimately show ?thesis by (rule conjI[rotated])
qed

subsection \<open>Claim C4: fewer than twenty rows\<close>

text \<open>
  Claim C4: on a table whose Close column has at least one and fewer than twenty rows,
  \<open>calculate_metrics\<close> succeeds, and the columns \<open>SMA_20\<close>, \<open>BB_middle\<close>, \<open>BB_upper\<close> and
  \<open>BB_lower\<close> of the result hold NaN (not zero) at every position.
\<close>

theorem calculate_metrics_short:
  assumes "map_of (h df) ''Close'' = Some c" and "1 \<le> length c" and "length c < 20"
  shows "\<exists>h'. calculate_metrics df h = (Inr df, h') \<and>
           map_of (h' df) ''SMA_20'' = Some (replicate (length c) NaN) \<and>
           map_of (h' df) ''BB_middle'' = Some (replicate (length c) NaN) \<and>
           map_of (h' df) ''BB_upper'' = Some (replicate (length c) NaN) \<and>
           map_of (h' df) ''BB_lower'' = Some (replicate (length c) NaN)"
  using assms
  by (simp add: calculate_metrics_eq map_of_with_derived rolling_short
      map2_NaN_left map2_fsub_NaN_left fsub_def)

theorem calculate_metrics_short_witness:
  "map_of (example_heap 0) ''Close'' = Some [Finite 11, Finite 12, Finite 11] \<and>
   fst (calculate_metrics 0 example_heap) = Inr 0 \<and>
   map_of (snd (calculate_metrics 0 example_heap) 0) ''SMA_20'' = Some [NaN, NaN, NaN] \<and>
   map_of (snd (calculate_metrics 0 example_heap) 0) ''BB_middle'' = Some [NaN, NaN, NaN] \<and>
   map_of (snd (calculate_metrics 0 example_heap) 0) ''BB_upper'' = Some [NaN, NaN, NaN] \<and>
   map_of (snd (calculate_metrics 0 example_heap) 0) ''BB_lower'' = Some [NaN, NaN, NaN]"
  using calculate_metrics_short[of example_heap 0, OF example_Close]
  by (auto simp: example_Close numeral_3_eq_3)

end
